theory Spec2Isabelle
  imports Complex_Main "HOL-Library.Char_ord" "HOL-Library.List_Lexorder" "HOL-Library.Multiset"
    "HOL-Library.Code_Target_Nat"
begin

section \<open>The fetch pipeline of BirdMap.jsx\<close>

text \<open>
  The embedding follows \<^verbatim>\<open>src/client/src/components/BirdMap.jsx\<close> (the enriched
  variant) and \<^verbatim>\<open>src/unnamed/part_000\<close> (the earlier variant of the same component).
  In the fetch pipeline JavaScript numbers are modelled as real numbers: latitudes,
  longitudes and distances are finite, and rounding error, NaN and the infinities are
  outside that model. The geodistance is embedded a second time in double precision
  (\<open>calculateDistance_double\<close>), where rounding and NaN are part of the model.
  Strings are \<^typ>\<open>string\<close>; \<^verbatim>\<open>null\<close> and \<^verbatim>\<open>undefined\<close> are \<^const>\<open>None\<close>.
\<close>

subsection \<open>Geodistance\<close>

text \<open>
  \<^verbatim>\<open>Math.atan2(y, x)\<close> on real numbers, by the quadrant of \<open>(x, y)\<close> as ECMAScript
  defines it.
\<close>

definition atan2 :: "real \<Rightarrow> real \<Rightarrow> real" where
  "atan2 y x =
     (if 0 < x then arctan (y / x)
      else if x < 0 \<and> 0 \<le> y then arctan (y / x) + pi
      else if x < 0 \<and> y < 0 then arctan (y / x) - pi
      else if 0 < y then pi / 2
      else if y < 0 then - (pi / 2)
      else 0)"

text \<open>The local constant \<^verbatim>\<open>a\<close> of \<^verbatim>\<open>calculateDistance\<close>.\<close>

definition calculateDistance_a :: "real \<Rightarrow> real \<Rightarrow> real \<Rightarrow> real \<Rightarrow> real" where
  "calculateDistance_a lat1 lon1 lat2 lon2 =
     (let dLat = (lat2 - lat1) * pi / 180;
          dLon = (lon2 - lon1) * pi / 180
      in sin (dLat / 2) * sin (dLat / 2) +
         cos (lat1 * pi / 180) * cos (lat2 * pi / 180) *
         sin (dLon / 2) * sin (dLon / 2))"

text \<open>
  \<^verbatim>\<open>calculateDistance\<close> in exact arithmetic. There \<open>a\<close> lies between 0 and 1
  (\<open>calculateDistance_a_bounds\<close> below), so that both square roots are defined. The source
  does not clamp \<open>a\<close>; in double precision it can round above 1, see
  \<open>calculateDistance_double\<close>.
\<close>

definition calculateDistance :: "real \<Rightarrow> real \<Rightarrow> real \<Rightarrow> real \<Rightarrow> real" where
  "calculateDistance lat1 lon1 lat2 lon2 =
     (let R = 6371;
          a = calculateDistance_a lat1 lon1 lat2 lon2;
          c = 2 * atan2 (sqrt a) (sqrt (1 - a))
      in R * c)"

subsection \<open>Geodistance in double precision\<close>

















subsection \<open>Data\<close>

record LatLng =
  lat :: real
  lng :: real

text \<open>An observation as the observation query returns it.\<close>

record Sighting = LatLng +
  sciName :: string
  comName :: string
  speciesCode :: string
  obsDt :: string
  obsValid :: bool
  subId :: string

text \<open>
  An element of \<^verbatim>\<open>birds\<close>: the fields spread from \<^verbatim>\<open>speciesSightings[0]\<close>, then
  \<^verbatim>\<open>subIds\<close> and the two photo fields. Spreading \<^verbatim>\<open>undefined\<close> copies no field, which
  is \<open>base = None\<close>. A photo field that is absent and one that holds \<^verbatim>\<open>undefined\<close> read
  alike and are both \<^const>\<open>None\<close>.
\<close>

record Bird =
  base :: "Sighting option"
  subIds :: "string list"
  thumbnailUrl :: "string option"
  fullPhotoUrl :: "string option"

record Cluster = LatLng +
  birds :: "Bird list"

text \<open>An entry of the photo lookup's \<^verbatim>\<open>species\<close> object.\<close>

record PhotoData =
  photo_thumbnailUrl :: "string option"
  photo_imageUrl :: "string option"

text \<open>
  The value of \<^verbatim>\<open>speciesPhotos\<close> after the inner \<^verbatim>\<open>try\<close>: an object, read by key (a key
  whose value is falsy reads like a missing one), or \<^verbatim>\<open>undefined\<close>/\<^verbatim>\<open>null\<close>, on which
  reading a key throws. Properties inherited from \<^verbatim>\<open>Object.prototype\<close> are not modelled.
\<close>

datatype speciesPhotos = Undefined | Photos "string \<rightharpoonup> PhotoData"

datatype js_error = TypeError

text \<open>
  The body of a photo lookup response that parsed as JSON: \<^verbatim>\<open>null\<close>; a value whose
  \<^verbatim>\<open>species\<close> property is missing or \<^verbatim>\<open>null\<close>; a value whose \<^verbatim>\<open>species\<close> property can be
  read by key.
\<close>

datatype photo_body = BodyNull | BodyNoSpecies | BodySpecies "string \<rightharpoonup> PhotoData"

datatype photo_response =
  PhotoNetworkError
| PhotoNotOk
| PhotoBadJson
| PhotoJson photo_body

datatype primary_response =
  NetworkError
| NotOk
| BadJson
| Json "Sighting list"

text \<open>
  The state that \<^verbatim>\<open>fetchBirdData\<close> of the earlier variant (part_000) reads and writes.
\<close>

record LegacyState =
  mapCenter :: LatLng
  lastQueriedPosition :: "LatLng option"
  birdSightings :: "Cluster list"
  loading :: bool

record FetchParams =
  daysBack :: string
  sightingType :: string

record Bounds =
  ne :: LatLng
  sw :: LatLng

text \<open>
  The component state that \<^verbatim>\<open>fetchBirdData\<close> reads and writes. \<open>mapRef\<close> is the map's
  visible bounds, \<^const>\<open>None\<close> while \<^verbatim>\<open>mapRef\<close> is \<^verbatim>\<open>null\<close>. The fields this record
  shares with \<open>LegacyState\<close> are written \<open>LegacyState.loading\<close> and so on for the
  earlier variant from here on.
\<close>

record State = FetchParams +
  mapCenter :: LatLng
  lastFetchLocation :: "LatLng option"
  lastFetchParams :: "FetchParams option"
  birdSightings :: "Cluster list"
  loading :: bool
  mapRef :: "Bounds option"

text \<open>The parameters of the observation query.\<close>

record Query = LatLng +
  dist :: real
  qtype :: string
  qback :: string

datatype event =
  SkipLogged
| PrimaryRequest Query
| LegacyRequest LatLng
| PhotoRequest "string list"
| PhotoErrorLogged
| FetchErrorLogged
| Alert string

subsection \<open>Library functions\<close>

text \<open>
  \<^verbatim>\<open>Number(x.toFixed(d))\<close>: the magnitude rounded to \<open>d\<close> decimals, a tie going up,
  with the sign of \<open>x\<close>. (From \<open>10^21\<close> on \<^verbatim>\<open>toFixed\<close> prints the number unrounded; no
  coordinate or radius is that large.)
\<close>

definition toFixed :: "nat \<Rightarrow> real \<Rightarrow> real" where
  "toFixed d x = sgn x * of_int \<lfloor>\<bar>x\<bar> * 10 ^ d + 1 / 2\<rfloor> / 10 ^ d"

text \<open>
  lodash's \<^verbatim>\<open>groupBy\<close>: the result object as a list of keys with their arrays, in
  the order the keys were created; each element is pushed onto the array of its key.
\<close>

fun assignValue :: "'k \<Rightarrow> 'a \<Rightarrow> ('k \<times> 'a list) list \<Rightarrow> ('k \<times> 'a list) list" where
  "assignValue k v [] = [(k, [v])]"
| "assignValue k v ((k', vs) # result) =
     (if k' = k then (k', vs @ [v]) # result else (k', vs) # assignValue k v result)"

definition groupBy :: "('a \<Rightarrow> 'k) \<Rightarrow> 'a list \<Rightarrow> ('k \<times> 'a list) list" where
  "groupBy iteratee collection =
     foldl (\<lambda>result v. assignValue (iteratee v) v result) [] collection"

text \<open>
  \<^verbatim>\<open>Object.entries\<close> lists the keys that are array indices first, by ascending value,
  then the other keys in the order of their creation. An array index is the canonical
  decimal numeral of a number below \<open>2^32 - 1\<close>.
\<close>

definition isDigit :: "char \<Rightarrow> bool" where
  "isDigit c = (CHR ''0'' \<le> c \<and> c \<le> CHR ''9'')"

definition digitsValue :: "string \<Rightarrow> nat" where
  "digitsValue s = foldl (\<lambda>n c. 10 * n + (of_char c - 48)) 0 s"

definition arrayIndex :: "string \<Rightarrow> nat option" where
  "arrayIndex s =
     (if s \<noteq> [] \<and> list_all isDigit s \<and> (s = ''0'' \<or> hd s \<noteq> CHR ''0'')
         \<and> digitsValue s < 2 ^ 32 - 1
      then Some (digitsValue s) else None)"

definition objectEntries :: "(string \<times> 'v) list \<Rightarrow> (string \<times> 'v) list" where
  "objectEntries obj =
     sort_key (\<lambda>(k, v). case arrayIndex k of Some n \<Rightarrow> n | None \<Rightarrow> 0)
       (filter (\<lambda>(k, v). arrayIndex k \<noteq> None) obj)
     @ filter (\<lambda>(k, v). arrayIndex k = None) obj"

text \<open>\<^verbatim>\<open>[...new Set(xs)]\<close>: the first occurrence of each element, in order.\<close>

fun uniqueValues :: "'a list \<Rightarrow> 'a list" where
  "uniqueValues [] = []"
| "uniqueValues (x # xs) = x # filter (\<lambda>y. y \<noteq> x) (uniqueValues xs)"

text \<open>\<^verbatim>\<open>xs[0]\<close>, which is \<^verbatim>\<open>undefined\<close> on an empty array.\<close>

definition first :: "'a list \<Rightarrow> 'a option" where
  "first xs = (case xs of [] \<Rightarrow> None | x # _ \<Rightarrow> Some x)"

text \<open>\<^verbatim>\<open>xs.map(f)\<close> with a callback that may throw: the first throw ends the loop.\<close>

fun mapE :: "('a \<Rightarrow> 'e + 'b) \<Rightarrow> 'a list \<Rightarrow> 'e + 'b list" where
  "mapE f [] = Inr []"
| "mapE f (x # xs) =
     (case f x of
        Inl e \<Rightarrow> Inl e
      | Inr y \<Rightarrow> (case mapE f xs of Inl e \<Rightarrow> Inl e | Inr ys \<Rightarrow> Inr (y # ys)))"

subsection \<open>Normalisation and photo join (both variants)\<close>

text \<open>
  The inner \<^verbatim>\<open>try\<close> of \<^verbatim>\<open>fetchBirdData\<close>: \<^verbatim>\<open>speciesPhotos\<close> starts as the empty object
  and is overwritten only when the response is ok and its body parses. A rejected
  request, a body that does not parse and a \<^verbatim>\<open>null\<close> body (reading \<^verbatim>\<open>photoData.species\<close>
  throws) are caught and logged.
\<close>

definition lookupPhotos :: "photo_response \<Rightarrow> speciesPhotos \<times> event list" where
  "lookupPhotos photoResponse =
     (case photoResponse of
        PhotoNetworkError \<Rightarrow> (Photos Map.empty, [PhotoErrorLogged])
      | PhotoNotOk \<Rightarrow> (Photos Map.empty, [])
      | PhotoBadJson \<Rightarrow> (Photos Map.empty, [PhotoErrorLogged])
      | PhotoJson BodyNull \<Rightarrow> (Photos Map.empty, [PhotoErrorLogged])
      | PhotoJson BodyNoSpecies \<Rightarrow> (Undefined, [])
      | PhotoJson (BodySpecies m) \<Rightarrow> (Photos m, []))"

text \<open>A field of \<^verbatim>\<open>baseData\<close> inside a template literal.\<close>

definition fieldText :: "(Sighting \<Rightarrow> string) \<Rightarrow> Bird \<Rightarrow> string" where
  "fieldText f b = (case base b of None \<Rightarrow> ''undefined'' | Some s \<Rightarrow> f s)"

definition baseData :: "Sighting list \<Rightarrow> Bird" where
  "baseData speciesSightings =
     \<lparr>base = first speciesSightings,
      subIds = map subId speciesSightings,
      thumbnailUrl = None,
      fullPhotoUrl = None\<rparr>"

definition addPhoto :: "speciesPhotos \<Rightarrow> Bird \<Rightarrow> js_error + Bird" where
  "addPhoto speciesPhotos b =
     (let speciesKey = fieldText sciName b @ ''_'' @ fieldText comName b
      in case speciesPhotos of
           Undefined \<Rightarrow> Inl TypeError
         | Photos m \<Rightarrow>
             (case m speciesKey of
                None \<Rightarrow> Inr b
              | Some photoData \<Rightarrow>
                  Inr (b\<lparr>thumbnailUrl := photo_thumbnailUrl photoData,
                         fullPhotoUrl := photo_imageUrl photoData\<rparr>)))"

definition processBirds :: "speciesPhotos \<Rightarrow> Sighting list \<Rightarrow> js_error + Bird list" where
  "processBirds speciesPhotos sightings =
     mapE (\<lambda>(name, speciesSightings). addPhoto speciesPhotos (baseData speciesSightings))
       (objectEntries (groupBy comName sightings))"

text \<open>
  The location key is the text \<^verbatim>\<open>lat,lng\<close>, split and read back as numbers. The text of
  a number determines the number and is never an array index (it holds a comma), so the
  model keys by the pair of numbers and keeps the order of creation.
\<close>

definition processLocation ::
  "speciesPhotos \<Rightarrow> (real \<times> real) \<times> Sighting list \<Rightarrow> js_error + Cluster" where
  "processLocation speciesPhotos =
     (\<lambda>((la, lo), sightings).
        case processBirds speciesPhotos sightings of
          Inl e \<Rightarrow> Inl e
        | Inr bs \<Rightarrow> Inr \<lparr>lat = la, lng = lo, birds = bs\<rparr>)"

definition processedSightings :: "speciesPhotos \<Rightarrow> Sighting list \<Rightarrow> js_error + Cluster list" where
  "processedSightings speciesPhotos validSightings =
     mapE (processLocation speciesPhotos) (groupBy (\<lambda>s. (lat s, lng s)) validSightings)"

definition uniqueSpecies :: "Sighting list \<Rightarrow> string list" where
  "uniqueSpecies validSightings =
     uniqueValues (map (\<lambda>s. sciName s @ ''_'' @ comName s) validSightings)"

subsection \<open>fetchBirdData, earlier variant\<close>

definition fetchBirdData_legacy ::
  "primary_response \<Rightarrow> photo_response \<Rightarrow> LegacyState \<Rightarrow> LegacyState \<times> event list" where
  "fetchBirdData_legacy response photoResponse st =
     (let la = toFixed 4 (lat (LegacyState.mapCenter st));
          lo = toFixed 4 (lng (LegacyState.mapCenter st));
          queried = st\<lparr>lastQueriedPosition := Some \<lparr>lat = la, lng = lo\<rparr>\<rparr>;
          request = LegacyRequest \<lparr>lat = la, lng = lo\<rparr>;
          failed = (\<lambda>evs.
            (queried\<lparr>LegacyState.loading := False\<rparr>,
             request # evs @ [FetchErrorLogged, Alert ''Error fetching bird sightings'']))
      in case response of
           Json data \<Rightarrow>
             (let validSightings = filter obsValid data;
                  (speciesPhotos, logged) = lookupPhotos photoResponse
              in case processedSightings speciesPhotos validSightings of
                   Inl e \<Rightarrow> failed (PhotoRequest (uniqueSpecies validSightings) # logged)
                 | Inr processed \<Rightarrow>
                     (queried\<lparr>LegacyState.birdSightings := processed,
                              LegacyState.loading := False\<rparr>,
                      request # PhotoRequest (uniqueSpecies validSightings) # logged))
         | _ \<Rightarrow> failed [])"

subsection \<open>fetchBirdData, enriched variant\<close>

definition paramsChanged :: "State \<Rightarrow> bool" where
  "paramsChanged st =
     (case lastFetchParams st of
        None \<Rightarrow> True
      | Some p \<Rightarrow> daysBack p \<noteq> daysBack st \<or> sightingType p \<noteq> sightingType st)"

text \<open>The early \<^verbatim>\<open>return\<close>: parameters unchanged and less than 3 km from the last fetch.\<close>

definition skipFetch :: "State \<Rightarrow> bool" where
  "skipFetch st =
     (\<not> paramsChanged st \<and>
      (case lastFetchLocation st of
         None \<Rightarrow> False
       | Some l \<Rightarrow>
           calculateDistance (lat l) (lng l) (lat (mapCenter st)) (lng (mapCenter st)) < 3))"

definition viewportRadius :: "Bounds option \<Rightarrow> real" where
  "viewportRadius m =
     (case m of
        None \<Rightarrow> 25
      | Some bounds \<Rightarrow>
          (let xDistance = calculateDistance (lat (ne bounds)) (lng (ne bounds))
                             (lat (ne bounds)) (lng (sw bounds));
               yDistance = calculateDistance (lat (ne bounds)) (lng (ne bounds))
                             (lat (sw bounds)) (lng (ne bounds))
           in min (max xDistance yDistance / 2) 25))"

definition fetchBirdData ::
  "primary_response \<Rightarrow> photo_response \<Rightarrow> State \<Rightarrow> State \<times> event list" where
  "fetchBirdData response photoResponse st =
     (if skipFetch st then (st, [SkipLogged])
      else
        (let la = toFixed 4 (lat (mapCenter st));
             lo = toFixed 4 (lng (mapCenter st));
             radius = viewportRadius (mapRef st);
             request = PrimaryRequest
               \<lparr>lat = la, lng = lo, dist = toFixed 1 radius,
                qtype = sightingType st, qback = daysBack st\<rparr>;
             failed = (\<lambda>evs.
               (st\<lparr>loading := False\<rparr>,
                request # evs @ [FetchErrorLogged, Alert ''Error fetching bird sightings'']))
         in case response of
              Json data \<Rightarrow>
                (let validSightings = filter obsValid data;
                     (speciesPhotos, logged) = lookupPhotos photoResponse
                 in case processedSightings speciesPhotos validSightings of
                      Inl e \<Rightarrow> failed (PhotoRequest (uniqueSpecies validSightings) # logged)
                    | Inr processed \<Rightarrow>
                        (st\<lparr>birdSightings := processed,
                            lastFetchLocation := Some \<lparr>lat = la, lng = lo\<rparr>,
                            lastFetchParams :=
                              Some \<lparr>daysBack = daysBack st, sightingType = sightingType st\<rparr>,
                            loading := False\<rparr>,
                         request # PhotoRequest (uniqueSpecies validSightings) # logged))
            | _ \<Rightarrow> failed []))"

text \<open>What a cycle shows outside: whether it asked the observation source, and whether
  it raised the error notice.\<close>

fun isPrimaryRequest :: "event \<Rightarrow> bool" where
  "isPrimaryRequest (PrimaryRequest q) = True"
| "isPrimaryRequest (LegacyRequest p) = True"
| "isPrimaryRequest _ = False"

fun isAlert :: "event \<Rightarrow> bool" where
  "isAlert (Alert m) = True"
| "isAlert _ = False"

definition fetched :: "'s \<times> event list \<Rightarrow> bool" where
  "fetched r = list_ex isPrimaryRequest (snd r)"

definition surfacedError :: "'s \<times> event list \<Rightarrow> bool" where
  "surfacedError r = list_ex isAlert (snd r)"

text \<open>The stored location and the stored parameters are both absent or both present.\<close>

definition fetchStatePaired :: "State \<Rightarrow> bool" where
  "fetchStatePaired st = (lastFetchLocation st = None \<longleftrightarrow> lastFetchParams st = None)"

subsection \<open>Initial state and sample data\<close>

text \<open>The initial values of the state hooks of the two variants.\<close>

definition initialState :: State where
  "initialState =
     \<lparr>daysBack = ''7'', sightingType = ''recent'',
      mapCenter = \<lparr>lat = 36.9741, lng = -122.0308\<rparr>,
      lastFetchLocation = None, lastFetchParams = None,
      birdSightings = [], loading = False, mapRef = None\<rparr>"

definition initialLegacyState :: LegacyState where
  "initialLegacyState =
     \<lparr>LegacyState.mapCenter = \<lparr>lat = 36.9741, lng = -122.0308\<rparr>,
      lastQueriedPosition = None,
      LegacyState.birdSightings = [], LegacyState.loading = False\<rparr>"

text \<open>
  The state after a fetch at (36.97, -122.03) for seven days of recent sightings, and the
  viewport with corners (37.0, -122.0) and (36.9, -122.1).
\<close>

definition sampleFetched :: State where
  "sampleFetched =
     initialState\<lparr>mapCenter := \<lparr>lat = 36.97, lng = -122.03\<rparr>,
                  lastFetchLocation := Some \<lparr>lat = 36.97, lng = -122.03\<rparr>,
                  lastFetchParams := Some \<lparr>daysBack = ''7'', sightingType = ''recent''\<rparr>\<rparr>"

definition sampleBounds :: Bounds where
  "sampleBounds = \<lparr>ne = \<lparr>lat = 37.0, lng = -122.0\<rparr>, sw = \<lparr>lat = 36.9, lng = -122.1\<rparr>\<rparr>"

text \<open>
  Sample observations: two checklists reporting the same species at one location, the
  same report under a repeated checklist identifier, and a report flagged invalid.
\<close>

definition robinFirst :: Sighting where
  "robinFirst =
     \<lparr>lat = 36.97, lng = -122.03,
      sciName = ''Turdus migratorius'', comName = ''American Robin'',
      speciesCode = ''amerob'', obsDt = ''2024-05-01 08:00'',
      obsValid = True, subId = ''S100''\<rparr>"

definition robinSecond :: Sighting where
  "robinSecond = robinFirst\<lparr>obsDt := ''2024-05-02 09:30'', subId := ''S200''\<rparr>"

definition robinRepeated :: Sighting where
  "robinRepeated = robinFirst\<lparr>obsDt := ''2024-05-02 09:30''\<rparr>"

definition jayInvalid :: Sighting where
  "jayInvalid =
     \<lparr>lat = 36.97, lng = -122.03,
      sciName = ''Aphelocoma californica'', comName = ''California Scrub-Jay'',
      speciesCode = ''cowscj1'', obsDt = ''2024-05-03 10:00'',
      obsValid = False, subId = ''S300''\<rparr>"

definition robinPhoto :: "string \<rightharpoonup> PhotoData" where
  "robinPhoto =
     [''Turdus migratorius_American Robin'' \<mapsto>
        \<lparr>photo_thumbnailUrl = Some ''https://media.example/robin_t.jpg'',
         photo_imageUrl = Some ''https://media.example/robin.jpg''\<rparr>]"

subsection \<open>Notions of the specification\<close>

text \<open>
  The observations merged into the record of common name \<open>name\<close> at \<open>(la, lo)\<close>: the
  valid observations at that exact coordinate with that common name, in source order.
\<close>

definition merged :: "Sighting list \<Rightarrow> real \<Rightarrow> real \<Rightarrow> string \<Rightarrow> Sighting list" where
  "merged data la lo name =
     filter (\<lambda>s. obsValid s \<and> lat s = la \<and> lng s = lo \<and> comName s = name) data"

text \<open>
  \<open>t\<close> is the most recent observation timestamp among \<open>obs\<close>. Timestamps have the
  form \<^verbatim>\<open>YYYY-MM-DD HH:MM\<close>, which the order on strings sorts by time.
\<close>

definition mostRecentOf :: "Sighting list \<Rightarrow> string \<Rightarrow> bool" where
  "mostRecentOf obs t = (list_ex (\<lambda>s. obsDt s = t) obs \<and> list_all (\<lambda>s. obsDt s \<le> t) obs)"

text \<open>The observation query failed: the request was rejected, the status was not ok,
  or the body did not parse.\<close>

fun primaryFailed :: "primary_response \<Rightarrow> bool" where
  "primaryFailed (Json data) = False"
| "primaryFailed _ = True"

section \<open>Properties\<close>

subsection \<open>Geodistance\<close>

lemma calculateDistance_a_sym:
  "calculateDistance_a lat1 lon1 lat2 lon2 = calculateDistance_a lat2 lon2 lat1 lon1"
proof -
  have s: "sin ((x - y) * pi / 180 / 2) * sin ((x - y) * pi / 180 / 2)
         = sin ((y - x) * pi / 180 / 2) * sin ((y - x) * pi / 180 / 2)" for x y :: real
  proof -
    have e: "(x - y) * pi / 180 / 2 = - ((y - x) * pi / 180 / 2)" by (simp add: field_simps)
    show ?thesis unfolding e sin_minus by simp
  qed
  show ?thesis
    unfolding calculateDistance_a_def Let_def
    using s [of lat2 lat1] s [of lon2 lon1] by (simp add: mult.assoc mult.left_commute)
qed

lemma calculateDistance_a_same: "calculateDistance_a la lo la lo = 0"
  by (simp add: calculateDistance_a_def)

lemma unit_interval_mix:
  fixes u p t :: real
  assumes "0 \<le> t" "t \<le> 1" "- u \<le> p" "p \<le> 1 - u" "0 \<le> u" "u \<le> 1"
  shows "0 \<le> u + p * t \<and> u + p * t \<le> 1"
proof (cases "0 \<le> p")
  case True
  then have "0 \<le> p * t" "p * t \<le> p" using assms by (simp_all add: mult_left_le)
  then show ?thesis using assms by linarith
next
  case False
  then have "p * t \<le> 0" "p \<le> p * t" using assms
    by (simp_all add: mult_le_0_iff mult_left_le_one_le)
  then show ?thesis using assms by linarith
qed

lemma cos_product_bounds:
  fixes x y :: real
  shows "- (sin ((y - x) / 2) * sin ((y - x) / 2)) \<le> cos x * cos y"
    and "cos x * cos y \<le> 1 - sin ((y - x) / 2) * sin ((y - x) / 2)"
proof -
  have "cos (2 * ((y - x) / 2)) = 1 - 2 * (sin ((y - x) / 2))\<^sup>2"
    by (rule cos_double_sin)
  moreover have "2 * ((y - x) / 2) = y - x" by simp
  ultimately have d: "cos (y - x) = 1 - 2 * (sin ((y - x) / 2) * sin ((y - x) / 2))"
    by (simp only: power2_eq_square)
  have p: "2 * (cos x * cos y) = cos (y - x) + cos (y + x)"
    by (simp add: cos_diff cos_add)
  have b: "- 1 \<le> cos (y + x)" "cos (y + x) \<le> 1" by simp_all
  show "- (sin ((y - x) / 2) * sin ((y - x) / 2)) \<le> cos x * cos y"
    using d p b by linarith
  show "cos x * cos y \<le> 1 - sin ((y - x) / 2) * sin ((y - x) / 2)"
    using d p b by linarith
qed

text \<open>
  In exact arithmetic both square roots in \<^verbatim>\<open>calculateDistance\<close> are of numbers between
  0 and 1.
\<close>

lemma calculateDistance_a_bounds:
  "0 \<le> calculateDistance_a lat1 lon1 lat2 lon2 \<and> calculateDistance_a lat1 lon1 lat2 lon2 \<le> 1"
proof -
  define x where "x = lat1 * pi / 180"
  define y where "y = lat2 * pi / 180"
  define u where "u = sin ((y - x) / 2) * sin ((y - x) / 2)"
  define t where "t = sin ((lon2 - lon1) * pi / 180 / 2) * sin ((lon2 - lon1) * pi / 180 / 2)"
  have e: "(lat2 - lat1) * pi / 180 / 2 = (y - x) / 2"
    by (simp add: x_def y_def field_simps)
  have h: "calculateDistance_a lat1 lon1 lat2 lon2 = u + (cos x * cos y) * t"
    unfolding calculateDistance_a_def Let_def e by (simp add: u_def t_def x_def y_def mult.assoc)
  have t: "0 \<le> t" "t \<le> 1" unfolding t_def
    by (simp_all add: power2_eq_square [symmetric] abs_square_le_1)
  have u: "0 \<le> u" "u \<le> 1" unfolding u_def
    by (simp_all add: power2_eq_square [symmetric] abs_square_le_1)
  show ?thesis unfolding h
    using unit_interval_mix [of t u "cos x * cos y"] t u
      cos_product_bounds [where x = x and y = y] by (simp add: u_def)
qed

lemma calculateDistance_sym:
  "calculateDistance lat1 lon1 lat2 lon2 = calculateDistance lat2 lon2 lat1 lon1"
  unfolding calculateDistance_def using calculateDistance_a_sym [of lat1 lon1 lat2 lon2] by simp

lemma calculateDistance_same: "calculateDistance la lo la lo = 0"
  by (simp add: calculateDistance_def calculateDistance_a_same atan2_def)

text \<open>Along a meridian the distance is the arc of the latitude difference.\<close>

lemma calculateDistance_meridian:
  assumes "la \<le> la'" "la' - la < 180"
  shows "calculateDistance la lo la' lo = 6371 * ((la' - la) * pi / 180)"
proof -
  define x where "x = (la' - la) * pi / 180 / 2"
  have x0: "0 \<le> x" using assms by (simp add: x_def)
  have "(la' - la) * pi < 180 * pi" using assms by simp
  then have x1: "x < pi / 2" by (simp add: x_def)
  have a: "calculateDistance_a la lo la' lo = sin x * sin x"
    by (simp add: calculateDistance_a_def x_def)
  have c: "0 < cos x" using x0 x1 by (intro cos_gt_zero_pi) linarith+
  have s: "0 \<le> sin x" using x0 x1 by (intro sin_ge_zero) linarith+
  have "1 - sin x * sin x = cos x * cos x"
    using sin_cos_squared_add [of x] by (simp add: power2_eq_square)
  then have r: "sqrt (1 - sin x * sin x) = cos x" using c by simp
  have "atan2 (sin x) (cos x) = arctan (tan x)" using c by (simp add: atan2_def tan_def)
  also have "\<dots> = x" using x0 x1 by (intro arctan_tan) linarith+
  finally have "calculateDistance la lo la' lo = 6371 * (2 * x)"
    by (simp add: calculateDistance_def a r abs_of_nonneg [OF s])
  then show ?thesis by (simp add: x_def)
qed

subsection \<open>Rounding to double precision\<close>


















subsection \<open>Geodistance in double precision: both orders, and a point with itself\<close>










subsection \<open>Enclosures of the sine\<close>








subsection \<open>Geodistance in double precision between \<open>(-8, 0)\<close> and \<open>(8, 180)\<close>\<close>




























subsection \<open>Rounding\<close>

lemma toFixed_le:
  assumes "x \<le> 25"
  shows "toFixed 1 x \<le> 25"
proof -
  define n where "n = \<lfloor>\<bar>x\<bar> * 10 ^ 1 + 1 / 2\<rfloor>"
  have t: "toFixed 1 x = sgn x * of_int n / 10" by (simp add: toFixed_def n_def)
  have n0: "0 \<le> n" unfolding n_def by simp
  show ?thesis
  proof (cases "0 < x")
    case True
    have "\<bar>x\<bar> * 10 ^ 1 + 1 / 2 < 251" using assms True by simp
    then have "n < 251" unfolding n_def by (simp only: floor_less_iff of_int_numeral)
    then have "real_of_int n \<le> 250" by simp
    then show ?thesis unfolding t using True by simp
  next
    case False
    then have "sgn x * of_int n \<le> 0" using n0 by (simp add: sgn_if)
    then show ?thesis unfolding t by simp
  qed
qed

subsection \<open>groupBy, Object.entries and map\<close>

lemma map_of_assignValue:
  "map_of (assignValue k v r) =
     (map_of r)(k \<mapsto> (case map_of r k of None \<Rightarrow> [v] | Some vs \<Rightarrow> vs @ [v]))"
  by (induction r) (auto simp: fun_eq_iff)

lemma keys_assignValue:
  "map fst (assignValue k v r) = (if k \<in> fst ` set r then map fst r else map fst r @ [k])"
  by (induction r) (force split: if_splits)+

lemma groupBy_Nil: "groupBy f [] = []"
  by (simp add: groupBy_def)

lemma groupBy_snoc: "groupBy f (xs @ [x]) = assignValue (f x) x (groupBy f xs)"
  by (simp add: groupBy_def)

lemma groupBy_keys: "fst ` set (groupBy f xs) = f ` set xs"
proof (induction xs rule: rev_induct)
  case Nil
  show ?case by (simp add: groupBy_Nil)
next
  case (snoc x xs)
  have "fst ` set (assignValue (f x) x (groupBy f xs))
          = set (map fst (assignValue (f x) x (groupBy f xs)))"
    by simp
  also have "\<dots> = insert (f x) (fst ` set (groupBy f xs))"
    unfolding keys_assignValue by auto
  finally show ?case using snoc by (simp add: groupBy_snoc)
qed

lemma groupBy_distinct: "distinct (map fst (groupBy f xs))"
proof (induction xs rule: rev_induct)
  case Nil
  show ?case by (simp add: groupBy_Nil)
next
  case (snoc x xs)
  then show ?case by (simp add: groupBy_snoc keys_assignValue)
qed

lemma map_of_groupBy:
  "map_of (groupBy f xs) k =
     (if k \<in> f ` set xs then Some (filter (\<lambda>x. f x = k) xs) else None)"
proof (induction xs rule: rev_induct)
  case Nil
  show ?case by (simp add: groupBy_Nil)
next
  case (snoc x xs)
  then show ?case
    by (auto simp: groupBy_snoc map_of_assignValue filter_empty_conv image_iff) metis
qed

text \<open>Each key holds exactly the elements of that key, in source order, and at least one.\<close>

lemma groupBy_member:
  "(k, vs) \<in> set (groupBy f xs) \<longleftrightarrow> vs = filter (\<lambda>x. f x = k) xs \<and> vs \<noteq> []"
proof -
  have "(k, vs) \<in> set (groupBy f xs) \<longleftrightarrow> map_of (groupBy f xs) k = Some vs"
    using groupBy_distinct [of f xs] by simp
  also have "\<dots> \<longleftrightarrow> vs = filter (\<lambda>x. f x = k) xs \<and> k \<in> f ` set xs"
    by (auto simp: map_of_groupBy)
  also have "\<dots> \<longleftrightarrow> vs = filter (\<lambda>x. f x = k) xs \<and> vs \<noteq> []"
    by (auto simp: filter_empty_conv)
  finally show ?thesis .
qed

lemma mset_objectEntries: "mset (objectEntries obj) = mset obj"
  unfolding objectEntries_def by (simp add: case_prod_unfold)

lemma set_objectEntries: "set (objectEntries obj) = set obj"
  using mset_objectEntries [of obj] by (metis set_mset_mset)

lemma distinct_objectEntries:
  "distinct (map fst (objectEntries obj)) \<longleftrightarrow> distinct (map fst obj)"
proof -
  have "mset (map fst (objectEntries obj)) = mset (map fst obj)"
    by (simp add: mset_objectEntries)
  then show ?thesis by (rule mset_eq_imp_distinct_iff)
qed

lemma mapE_Inr_D: "mapE f xs = Inr ys \<Longrightarrow> list_all2 (\<lambda>x y. f x = Inr y) xs ys"
  by (induction xs arbitrary: ys) (auto split: sum.splits)

lemma mapE_throws:
  "xs \<noteq> [] \<Longrightarrow> (\<And>x. x \<in> set xs \<Longrightarrow> f x = Inl e) \<Longrightarrow> mapE f xs = Inl e"
  by (cases xs) auto

lemma list_all2_rightD:
  assumes "list_all2 P xs ys" "y \<in> set ys"
  obtains x where "x \<in> set xs" "P x y"
proof -
  from assms(1) have len: "length xs = length ys" by (rule list_all2_lengthD)
  from in_set_impl_in_set_zip2 [OF len assms(2)] obtain x where z: "(x, y) \<in> set (zip xs ys)" .
  with assms(1) have "P x y" by (auto simp: list_all2_iff)
  moreover from z have "x \<in> set xs" by (rule set_zip_leftD)
  ultimately show thesis using that by blast
qed

lemma list_all2_map_eq:
  "list_all2 (\<lambda>x y. h y = k x) xs ys \<Longrightarrow> map h ys = map k xs"
  by (induction rule: list_all2_induct) auto

lemma distinct_filter_key:
  "distinct (map h xs) \<Longrightarrow> x \<in> set xs \<Longrightarrow> filter (\<lambda>y. h y = h x) xs = [x]"
proof (induction xs)
  case Nil
  then show ?case by simp
next
  case (Cons a xs)
  show ?case
  proof (cases "a = x")
    case True
    with Cons.prems have "\<forall>y\<in>set xs. h y \<noteq> h x" by (auto simp: image_iff)
    then have "filter (\<lambda>y. h y = h x) xs = []" by (simp add: filter_empty_conv)
    with True show ?thesis by simp
  next
    case False
    with Cons.prems have "x \<in> set xs" "h a \<noteq> h x" "distinct (map h xs)" by auto
    with Cons.IH show ?thesis by simp
  qed
qed

lemma first_filter_key:
  assumes g: "g = filter (\<lambda>s. f s = k) xs" and ne: "g \<noteq> []"
  shows "\<exists>s. first g = Some s \<and> f s = k"
proof -
  from ne obtain s rest where c: "g = s # rest" by (cases g) auto
  then have "s \<in> set (filter (\<lambda>s. f s = k) xs)" using g by simp
  then have "f s = k" by simp
  with c show ?thesis by (simp add: first_def)
qed

subsection \<open>The records of one location\<close>

lemma addPhoto_frame:
  "addPhoto sp b0 = Inr b \<Longrightarrow> base b = base b0 \<and> subIds b = subIds b0"
  by (auto simp: addPhoto_def Let_def split: speciesPhotos.splits option.splits)

lemma addPhoto_fieldText:
  "addPhoto sp b0 = Inr b \<Longrightarrow> fieldText f b = fieldText f b0"
  by (simp add: fieldText_def addPhoto_frame)

lemma processBirds_entries:
  assumes "processBirds sp ss = Inr bs"
  shows "list_all2 (\<lambda>(n, g) b. addPhoto sp (baseData g) = Inr b)
           (objectEntries (groupBy comName ss)) bs"
  using mapE_Inr_D [OF assms [unfolded processBirds_def]]
  by (simp add: case_prod_unfold)

lemma entry_name:
  assumes "(n, g) \<in> set (objectEntries (groupBy comName ss))"
  shows "g = filter (\<lambda>s. comName s = n) ss \<and> g \<noteq> [] \<and> fieldText comName (baseData g) = n"
proof -
  from assms [unfolded set_objectEntries groupBy_member]
  have m: "g = filter (\<lambda>s. comName s = n) ss" "g \<noteq> []" by blast+
  from first_filter_key [OF m] obtain s where "first g = Some s" "comName s = n" by blast
  then have "fieldText comName (baseData g) = n" by (simp add: fieldText_def baseData_def)
  with m show ?thesis by simp
qed

lemma processBirds_names:
  assumes "processBirds sp ss = Inr bs"
  shows "map (fieldText comName) bs = map fst (objectEntries (groupBy comName ss))"
proof -
  have "list_all2 (\<lambda>e b. fieldText comName b = fst e) (objectEntries (groupBy comName ss)) bs"
  proof (rule list.rel_mono_strong [OF processBirds_entries [OF assms]])
    fix e b
    assume e: "e \<in> set (objectEntries (groupBy comName ss))"
      and p: "(case e of (n, g) \<Rightarrow> \<lambda>b. addPhoto sp (baseData g) = Inr b) b"
    obtain n g where ng: "e = (n, g)" by (cases e)
    with p have "addPhoto sp (baseData g) = Inr b" by simp
    then have "fieldText comName b = fieldText comName (baseData g)"
      by (rule addPhoto_fieldText)
    also have "\<dots> = n" using entry_name e ng by blast
    finally show "fieldText comName b = fst e" using ng by simp
  qed
  then show ?thesis by (rule list_all2_map_eq)
qed

lemma processBirds_member:
  assumes "processBirds sp ss = Inr bs" "b \<in> set bs"
  shows "\<exists>g. g = filter (\<lambda>s. comName s = fieldText comName b) ss \<and> g \<noteq> []
             \<and> base b = first g \<and> subIds b = map subId g"
proof -
  from list_all2_rightD [OF processBirds_entries [OF assms(1)] assms(2)]
  obtain e where e: "e \<in> set (objectEntries (groupBy comName ss))"
    and p: "(case e of (n, g) \<Rightarrow> \<lambda>b. addPhoto sp (baseData g) = Inr b) b" by blast
  obtain n g where ng: "e = (n, g)" by (cases e)
  with p have a: "addPhoto sp (baseData g) = Inr b" by simp
  from entry_name e ng have g: "g = filter (\<lambda>s. comName s = n) ss" "g \<noteq> []"
    "fieldText comName (baseData g) = n" by blast+
  from a have "fieldText comName b = n" using g(3) addPhoto_fieldText by metis
  moreover from addPhoto_frame [OF a] have "base b = first g" "subIds b = map subId g"
    by (simp_all add: baseData_def)
  ultimately show ?thesis using g by simp
qed

lemma processBirds_distinct:
  assumes "processBirds sp ss = Inr bs"
  shows "distinct (map (fieldText comName) bs)"
  unfolding processBirds_names [OF assms] distinct_objectEntries by (rule groupBy_distinct)

lemma processBirds_complete:
  assumes "processBirds sp ss = Inr bs" "s \<in> set ss"
  shows "\<exists>b\<in>set bs. fieldText comName b = comName s"
proof -
  have "comName s \<in> fst ` set (groupBy comName ss)" using assms(2) by (simp add: groupBy_keys)
  then have "comName s \<in> set (map fst (objectEntries (groupBy comName ss)))"
    by (simp add: set_objectEntries)
  then have "comName s \<in> set (map (fieldText comName) bs)"
    by (simp only: processBirds_names [OF assms(1)])
  then show ?thesis by auto
qed

subsection \<open>The clusters\<close>

lemma processLocation_Inr:
  assumes "processLocation sp (k, ss) = Inr c"
  shows "(lat c, lng c) = k \<and> processBirds sp ss = Inr (birds c)"
  using assms by (cases k) (auto simp: processLocation_def split: sum.splits)

lemma processedSightings_entries:
  assumes "processedSightings sp vs = Inr cs"
  shows "list_all2 (\<lambda>e c. processLocation sp e = Inr c) (groupBy (\<lambda>s. (lat s, lng s)) vs) cs"
  using mapE_Inr_D [OF assms [unfolded processedSightings_def]] .

lemma processedSightings_keys:
  assumes "processedSightings sp vs = Inr cs"
  shows "map (\<lambda>c. (lat c, lng c)) cs = map fst (groupBy (\<lambda>s. (lat s, lng s)) vs)"
proof -
  have "list_all2 (\<lambda>e c. (lat c, lng c) = fst e) (groupBy (\<lambda>s. (lat s, lng s)) vs) cs"
  proof (rule list_all2_mono [OF processedSightings_entries [OF assms]])
    fix e c
    assume "processLocation sp e = Inr c"
    then show "(lat c, lng c) = fst e"
      using processLocation_Inr [of sp "fst e" "snd e" c] by simp
  qed
  then show ?thesis by (rule list_all2_map_eq)
qed

lemma processedSightings_distinct:
  assumes "processedSightings sp vs = Inr cs"
  shows "distinct (map (\<lambda>c. (lat c, lng c)) cs)"
  unfolding processedSightings_keys [OF assms] by (rule groupBy_distinct)

lemma processedSightings_member:
  assumes "processedSightings sp vs = Inr cs" "c \<in> set cs"
  shows "\<exists>ss. ss = filter (\<lambda>s. lat s = lat c \<and> lng s = lng c) vs \<and> ss \<noteq> []
              \<and> processBirds sp ss = Inr (birds c)"
proof -
  from list_all2_rightD [OF processedSightings_entries [OF assms(1)] assms(2)]
  obtain e where e: "e \<in> set (groupBy (\<lambda>s. (lat s, lng s)) vs)"
    and p: "processLocation sp e = Inr c" by blast
  obtain k ss where kss: "e = (k, ss)" by (cases e)
  from processLocation_Inr [OF p [unfolded kss]]
  have k: "(lat c, lng c) = k" and b: "processBirds sp ss = Inr (birds c)" by blast+
  have "((lat s, lng s) = k) = (lat s = lat c \<and> lng s = lng c)" for s :: Sighting
    using k by auto
  with e [unfolded kss groupBy_member]
  have "ss = filter (\<lambda>s. lat s = lat c \<and> lng s = lng c) vs" "ss \<noteq> []" by auto
  with b show ?thesis by blast
qed

lemma processedSightings_complete:
  assumes "processedSightings sp vs = Inr cs" "s \<in> set vs"
  shows "\<exists>c\<in>set cs. lat c = lat s \<and> lng c = lng s"
proof -
  have "(lat s, lng s) \<in> fst ` set (groupBy (\<lambda>s. (lat s, lng s)) vs)"
    using assms(2) by (simp add: groupBy_keys)
  then have "(lat s, lng s) \<in> set (map (\<lambda>c. (lat c, lng c)) cs)"
    by (simp only: processedSightings_keys [OF assms(1)] set_map)
  then show ?thesis by auto
qed

lemma merged_filter:
  "filter (\<lambda>s. comName s = n) (filter (\<lambda>s. lat s = la \<and> lng s = lo) (filter obsValid data))
     = merged data la lo n"
  by (simp add: merged_def conj_ac cong: conj_cong)

text \<open>
  Every record of the output is built from the observations merged into it: the fields
  of the first one, and the submission identifiers of all of them in source order.
\<close>

lemma normalize_record:
  assumes "processedSightings sp (filter obsValid data) = Inr cs"
    and "c \<in> set cs" and "b \<in> set (birds c)"
  shows "merged data (lat c) (lng c) (fieldText comName b) \<noteq> []
       \<and> base b = first (merged data (lat c) (lng c) (fieldText comName b))
       \<and> subIds b = map subId (merged data (lat c) (lng c) (fieldText comName b))"
proof -
  from processedSightings_member [OF assms(1,2)]
  have p: "processBirds sp (filter (\<lambda>s. lat s = lat c \<and> lng s = lng c) (filter obsValid data))
             = Inr (birds c)" by blast
  from processBirds_member [OF p assms(3)] show ?thesis
    unfolding merged_filter by blast
qed

text \<open>A location and common name with a valid observation has one cluster and one record.\<close>

lemma normalize_unique:
  assumes "processedSightings sp (filter obsValid data) = Inr cs"
    and "merged data la lo n \<noteq> []"
  shows "\<exists>c b. filter (\<lambda>c. lat c = la \<and> lng c = lo) cs = [c]
              \<and> filter (\<lambda>b. fieldText comName b = n) (birds c) = [b]"
proof -
  from assms(2) obtain s where "s \<in> set (merged data la lo n)"
    by (cases "merged data la lo n") auto
  then have s: "s \<in> set (filter obsValid data)" "lat s = la" "lng s = lo" "comName s = n"
    by (simp_all add: merged_def)
  from processedSightings_complete [OF assms(1) s(1)]
  obtain c where c: "c \<in> set cs" "lat c = la" "lng c = lo" using s by auto
  from distinct_filter_key [OF processedSightings_distinct [OF assms(1)] c(1)]
  have fc: "filter (\<lambda>c. lat c = la \<and> lng c = lo) cs = [c]" using c by simp
  from processedSightings_member [OF assms(1) c(1)]
  have p: "processBirds sp (filter (\<lambda>s. lat s = la \<and> lng s = lo) (filter obsValid data))
             = Inr (birds c)" using c by simp
  have "s \<in> set (filter (\<lambda>s. lat s = la \<and> lng s = lo) (filter obsValid data))"
    using s by simp
  from processBirds_complete [OF p this]
  obtain b where b: "b \<in> set (birds c)" "fieldText comName b = n" using s by auto
  from distinct_filter_key [OF processBirds_distinct [OF p] b(1)]
  have "filter (\<lambda>b. fieldText comName b = n) (birds c) = [b]" using b by simp
  with fc show ?thesis by blast
qed

lemma mapE_returns:
  "(\<And>x. x \<in> set xs \<Longrightarrow> \<exists>y. f x = Inr y) \<Longrightarrow> \<exists>ys. mapE f xs = Inr ys"
proof (induction xs)
  case Nil
  show ?case by simp
next
  case (Cons x xs)
  from Cons.prems obtain y where "f x = Inr y" by auto
  moreover from Cons obtain ys where "mapE f xs = Inr ys" by auto
  ultimately show ?case by simp
qed

text \<open>With \<^verbatim>\<open>speciesPhotos\<close> an object, no step of the processing throws.\<close>

lemma addPhoto_returns: "\<exists>b'. addPhoto (Photos m) b = Inr b'"
  by (simp add: addPhoto_def Let_def split: option.splits)

lemma processBirds_returns: "\<exists>bs. processBirds (Photos m) ss = Inr bs"
  unfolding processBirds_def
  by (rule mapE_returns) (auto simp: addPhoto_returns)

lemma processedSightings_returns: "\<exists>cs. processedSightings (Photos m) vs = Inr cs"
  unfolding processedSightings_def
proof (rule mapE_returns)
  fix e :: "(real \<times> real) \<times> Sighting list"
  obtain la lo ss where e: "e = ((la, lo), ss)" by (cases e) auto
  from processBirds_returns [of m ss] obtain bs where "processBirds (Photos m) ss = Inr bs" ..
  then show "\<exists>c. processLocation (Photos m) e = Inr c"
    by (simp add: e processLocation_def)
qed

subsection \<open>The sample data, processed\<close>

lemmas eval_normalize = processedSightings_def processLocation_def processBirds_def groupBy_def
  objectEntries_def arrayIndex_def isDigit_def addPhoto_def baseData_def first_def fieldText_def
  robinFirst_def robinSecond_def robinRepeated_def jayInvalid_def

lemma sample_pair:
  "processedSightings (Photos Map.empty) (filter obsValid [robinFirst, robinSecond])
     = Inr [\<lparr>lat = 36.97, lng = -122.03,
             birds = [\<lparr>base = Some robinFirst, subIds = [''S100'', ''S200''],
                       thumbnailUrl = None, fullPhotoUrl = None\<rparr>]\<rparr>]"
  by (simp add: eval_normalize)

lemma sample_repeated:
  "processedSightings (Photos Map.empty) (filter obsValid [robinFirst, robinRepeated])
     = Inr [\<lparr>lat = 36.97, lng = -122.03,
             birds = [\<lparr>base = Some robinFirst, subIds = [''S100'', ''S100''],
                       thumbnailUrl = None, fullPhotoUrl = None\<rparr>]\<rparr>]"
  by (simp add: eval_normalize)

subsection \<open>What a cycle of the enriched variant does\<close>

lemma lookupPhotos_events: "lookupPhotos p = (sp, evs) \<Longrightarrow> set evs \<subseteq> {PhotoErrorLogged}"
  by (auto simp: lookupPhotos_def split: photo_response.splits photo_body.splits)

text \<open>The observation source is asked exactly when the early return is not taken.\<close>

lemma fetched_iff: "fetched (fetchBirdData r p st) \<longleftrightarrow> \<not> skipFetch st"
  by (auto simp: fetched_def fetchBirdData_def Let_def
      split: primary_response.splits sum.splits prod.splits)

lemma viewportRadius_le: "viewportRadius m \<le> 25"
  by (simp add: viewportRadius_def Let_def split: option.splits)

text \<open>The error notice is raised exactly when a cycle that asked the observation source
  got no usable answer or threw while processing it.\<close>

lemma lookupPhotos_quiet:
  assumes "lookupPhotos p = (sp, evs)"
  shows "\<not> list_ex isAlert evs"
  using assms by (auto simp: lookupPhotos_def split: photo_response.splits photo_body.splits)

lemma surfacedError_iff:
  "surfacedError (fetchBirdData r p st) \<longleftrightarrow>
     \<not> skipFetch st \<and>
     (case r of
        Json data \<Rightarrow> isl (processedSightings (fst (lookupPhotos p)) (filter obsValid data))
      | _ \<Rightarrow> True)"
  by (auto simp: surfacedError_def fetchBirdData_def Let_def
      dest: lookupPhotos_quiet
      split: primary_response.splits sum.splits prod.splits)

lemma fetchBirdData_failure:
  assumes "primaryFailed r"
  shows "birdSightings (fst (fetchBirdData r p st)) = birdSightings st
       \<and> lastFetchLocation (fst (fetchBirdData r p st)) = lastFetchLocation st
       \<and> lastFetchParams (fst (fetchBirdData r p st)) = lastFetchParams st"
  using assms by (cases r) (simp_all add: fetchBirdData_def Let_def)

lemma fetchBirdData_surfaced:
  assumes "surfacedError (fetchBirdData r p st)"
  shows "birdSightings (fst (fetchBirdData r p st)) = birdSightings st
       \<and> lastFetchLocation (fst (fetchBirdData r p st)) = lastFetchLocation st
       \<and> lastFetchParams (fst (fetchBirdData r p st)) = lastFetchParams st"
  using assms 
  by (auto simp: surfacedError_def fetchBirdData_def Let_def
      dest: lookupPhotos_quiet
      split: primary_response.splits sum.splits prod.splits if_splits)

lemma fetchBirdData_skipped:
  assumes "\<not> fetched (fetchBirdData r p st)"
  shows "fst (fetchBirdData r p st) = st"
  using assms unfolding fetched_iff by (simp add: fetchBirdData_def)

lemma sample_cycle:
  "fetchBirdData (Json [robinFirst, jayInvalid, robinSecond]) (PhotoJson (BodySpecies robinPhoto))
     initialState =
   (initialState
      \<lparr>birdSightings :=
         [\<lparr>lat = 36.97, lng = -122.03,
           birds = [\<lparr>base = Some robinFirst, subIds = [''S100'', ''S200''],
                     thumbnailUrl = Some ''https://media.example/robin_t.jpg'',
                     fullPhotoUrl = Some ''https://media.example/robin.jpg''\<rparr>]\<rparr>],
       lastFetchLocation := Some \<lparr>lat = 36.9741, lng = -122.0308\<rparr>,
       lastFetchParams := Some \<lparr>daysBack = ''7'', sightingType = ''recent''\<rparr>\<rparr>,
    [PrimaryRequest \<lparr>lat = 36.9741, lng = -122.0308, dist = 25,
                     qtype = ''recent'', qback = ''7''\<rparr>,
     PhotoRequest [''Turdus migratorius_American Robin'']])"
  by (simp add: fetchBirdData_def skipFetch_def paramsChanged_def initialState_def
      viewportRadius_def toFixed_def lookupPhotos_def uniqueSpecies_def robinPhoto_def
      Let_def eval_normalize)

lemma published_clusters:
  assumes "fetched (fetchBirdData r p st)" "\<not> surfacedError (fetchBirdData r p st)"
  shows "\<exists>data. r = Json data
           \<and> processedSightings (fst (lookupPhotos p)) (filter obsValid data)
               = Inr (birdSightings (fst (fetchBirdData r p st)))"
  using assms unfolding fetched_iff surfacedError_iff
  by (cases r) (auto simp: fetchBirdData_def Let_def split: sum.splits prod.splits)

lemma rerun_enriched:
  "birdSightings (fst (fetchBirdData r p (fst (fetchBirdData r p st))))
     = birdSightings (fst (fetchBirdData r p st))"
proof (cases "fetched (fetchBirdData r p st)")
  case False
  then have "fst (fetchBirdData r p st) = st" by (rule fetchBirdData_skipped)
  then show ?thesis by simp
next
  case f: True
  let ?st1 = "fst (fetchBirdData r p st)"
  show ?thesis
  proof (cases "fetched (fetchBirdData r p ?st1)")
    case False
    then have "fst (fetchBirdData r p ?st1) = ?st1" by (rule fetchBirdData_skipped)
    then show ?thesis by simp
  next
    case g: True
    show ?thesis
    proof (cases "surfacedError (fetchBirdData r p st)")
      case True
      then have s: "surfacedError (fetchBirdData r p ?st1)"
        using g unfolding surfacedError_iff fetched_iff by simp
      from fetchBirdData_surfaced [OF s] show ?thesis by simp
    next
      case False
      then have n: "\<not> surfacedError (fetchBirdData r p ?st1)"
        using f unfolding surfacedError_iff fetched_iff by simp
      from published_clusters [OF f False] published_clusters [OF g n]
      show ?thesis by auto
    qed
  qed
qed

lemma rerun_legacy:
  "LegacyState.birdSightings (fst (fetchBirdData_legacy r p (fst (fetchBirdData_legacy r p old))))
     = LegacyState.birdSightings (fst (fetchBirdData_legacy r p old))"
  by (cases r)
    (auto simp: fetchBirdData_legacy_def Let_def split: sum.splits prod.splits)

subsection \<open>The photo join\<close>

lemma list_all2_join:
  "list_all2 P xs ys \<Longrightarrow> list_all2 Q xs zs \<Longrightarrow> list_all2 (\<lambda>y z. \<exists>x. P x y \<and> Q x z) ys zs"
proof (induction xs arbitrary: ys zs)
  case Nil
  then show ?case by simp
next
  case (Cons x xs)
  then show ?case by (auto simp: list_all2_Cons1)
qed

lemma processBirds_frame:
  assumes "processBirds sp ss = Inr bs" "processBirds sp' ss = Inr bs'"
  shows "list_all2 (\<lambda>r r'. base r = base r' \<and> subIds r = subIds r') bs bs'"
proof (rule list_all2_mono [OF list_all2_join
      [OF processBirds_entries [OF assms(1)] processBirds_entries [OF assms(2)]]])
  fix r r'
  assume "\<exists>e. (case e of (n, g) \<Rightarrow> \<lambda>b. addPhoto sp (baseData g) = Inr b) r
            \<and> (case e of (n, g) \<Rightarrow> \<lambda>b. addPhoto sp' (baseData g) = Inr b) r'"
  then obtain n g where "addPhoto sp (baseData g) = Inr r" "addPhoto sp' (baseData g) = Inr r'"
    by auto
  then show "base r = base r' \<and> subIds r = subIds r'"
    using addPhoto_frame by metis
qed

text \<open>
  Whatever the two values of \<^verbatim>\<open>speciesPhotos\<close>, when the processing returns under both,
  the clusters agree in number, order and coordinates, and their records agree in number,
  order, copied fields and \<open>subIds\<close>: only the two photo fields can differ.
\<close>

lemma photo_join_frame:
  assumes "processedSightings sp vs = Inr cs" "processedSightings sp' vs = Inr cs'"
  shows "list_all2 (\<lambda>c c'. lat c = lat c' \<and> lng c = lng c'
           \<and> list_all2 (\<lambda>r r'. base r = base r' \<and> subIds r = subIds r') (birds c) (birds c'))
         cs cs'"
proof (rule list_all2_mono [OF list_all2_join
      [OF processedSightings_entries [OF assms(1)] processedSightings_entries [OF assms(2)]]])
  fix c c'
  assume "\<exists>e. processLocation sp e = Inr c \<and> processLocation sp' e = Inr c'"
  then obtain k ss where "processLocation sp (k, ss) = Inr c" "processLocation sp' (k, ss) = Inr c'"
    by auto
  from processLocation_Inr [OF this(1)] processLocation_Inr [OF this(2)]
  have "(lat c, lng c) = (lat c', lng c')"
    and "processBirds sp ss = Inr (birds c)" "processBirds sp' ss = Inr (birds c')" by auto
  then show "lat c = lat c' \<and> lng c = lng c'
           \<and> list_all2 (\<lambda>r r'. base r = base r' \<and> subIds r = subIds r') (birds c) (birds c')"
    using processBirds_frame by auto
qed

lemma addPhoto_empty: "addPhoto (Photos Map.empty) b = Inr b"
  by (simp add: addPhoto_def)

lemma no_photos:
  assumes "processedSightings (Photos Map.empty) vs = Inr cs" "c \<in> set cs" "r \<in> set (birds c)"
  shows "thumbnailUrl r = None \<and> fullPhotoUrl r = None"
proof -
  from processedSightings_member [OF assms(1,2)] obtain ss
    where ss: "processBirds (Photos Map.empty) ss = Inr (birds c)" by blast
  from list_all2_rightD [OF processBirds_entries [OF ss] assms(3)]
  obtain e where "e \<in> set (objectEntries (groupBy comName ss))"
    and e: "(case e of (n, g) \<Rightarrow> \<lambda>b. addPhoto (Photos Map.empty) (baseData g) = Inr b) r"
    by blast
  obtain n g where ng: "e = (n, g)" by (cases e)
  from e [unfolded ng] have "addPhoto (Photos Map.empty) (baseData g) = Inr r" by simp
  then have "r = baseData g" by (simp only: addPhoto_empty sum.inject)
  then show ?thesis by (simp add: baseData_def)
qed

text \<open>
  A photo lookup that is rejected, answers with a status that is not ok, or has a body
  that does not parse or is \<^verbatim>\<open>null\<close>, is absorbed: the cycle publishes the clusters
  without photo fields and raises no error notice.
\<close>

lemma photo_failure_absorbed:
  assumes "p \<in> {PhotoNetworkError, PhotoNotOk, PhotoBadJson, PhotoJson BodyNull}"
    and "\<not> skipFetch st"
  shows "\<not> surfacedError (fetchBirdData (Json data) p st)
       \<and> processedSightings (Photos Map.empty) (filter obsValid data)
           = Inr (birdSightings (fst (fetchBirdData (Json data) p st)))
       \<and> (\<forall>c\<in>set (birdSightings (fst (fetchBirdData (Json data) p st))).
            \<forall>r\<in>set (birds c). thumbnailUrl r = None \<and> fullPhotoUrl r = None)"
proof -
  from assms(1) have l: "fst (lookupPhotos p) = Photos Map.empty"
    by (auto simp: lookupPhotos_def)
  from processedSightings_returns obtain cs
    where cs: "processedSightings (Photos Map.empty) (filter obsValid data) = Inr cs" by blast
  have s: "\<not> surfacedError (fetchBirdData (Json data) p st)"
    unfolding surfacedError_iff by (simp add: l cs)
  have f: "fetched (fetchBirdData (Json data) p st)" using assms(2) by (simp add: fetched_iff)
  from published_clusters [OF f s]
  have b: "birdSightings (fst (fetchBirdData (Json data) p st)) = cs" by (simp add: l cs)
  from no_photos [OF cs] s cs show ?thesis unfolding b by blast
qed

text \<open>The two parts of the stored fetch are written together.\<close>

lemma fetchStatePaired_kept:
  "fetchStatePaired st \<Longrightarrow> fetchStatePaired (fst (fetchBirdData r p st))"
  by (auto simp: fetchStatePaired_def fetchBirdData_def Let_def
      split: primary_response.splits sum.splits prod.splits)

lemma fetchStatePaired_initial: "fetchStatePaired initialState"
  by (simp add: fetchStatePaired_def initialState_def)

section \<open>The claims\<close>




text \<open>
  C3. Radius Estimator: with viewport bounds the radius is \<open>min (max eastWest northSouth / 2) 25\<close>,
  where \<open>eastWest\<close> is the distance from NE to (NE.lat, SW.lng) and \<open>northSouth\<close> the
  distance from NE to (SW.lat, NE.lng); the radius never exceeds 25; without bounds it is
  25. The \<open>dist\<close> parameter of every observation query is that radius rounded to one
  decimal and does not exceed 25 either.
\<close>

theorem viewportRadius_clamped:
  "viewportRadius (Some bounds) =
     min (max (calculateDistance (lat (ne bounds)) (lng (ne bounds))
                 (lat (ne bounds)) (lng (sw bounds)))
              (calculateDistance (lat (ne bounds)) (lng (ne bounds))
                 (lat (sw bounds)) (lng (ne bounds))) / 2) 25
   \<and> viewportRadius m \<le> 25
   \<and> viewportRadius None = 25
   \<and> (\<forall>q. PrimaryRequest q \<in> set (snd (fetchBirdData r p st)) \<longrightarrow>
         dist q = toFixed 1 (viewportRadius (mapRef st)) \<and> dist q \<le> 25)"
proof -
  have a: "viewportRadius (Some bounds) =
     min (max (calculateDistance (lat (ne bounds)) (lng (ne bounds))
                 (lat (ne bounds)) (lng (sw bounds)))
              (calculateDistance (lat (ne bounds)) (lng (ne bounds))
                 (lat (sw bounds)) (lng (ne bounds))) / 2) 25"
    by (simp add: viewportRadius_def Let_def)
  have b: "viewportRadius m \<le> 25" by (rule viewportRadius_le)
  have c: "viewportRadius None = 25" by (simp add: viewportRadius_def)
  have "dist q = toFixed 1 (viewportRadius (mapRef st)) \<and> dist q \<le> 25"
    if "PrimaryRequest q \<in> set (snd (fetchBirdData r p st))" for q
  proof -
    from that have "dist q = toFixed 1 (viewportRadius (mapRef st))"
      by (auto simp: fetchBirdData_def Let_def dest: lookupPhotos_events
          split: if_splits primary_response.splits sum.splits prod.splits)
    then show ?thesis using toFixed_le [OF viewportRadius_le [of "mapRef st"]] by simp
  qed
  with a b c show ?thesis by blast
qed

theorem viewportRadius_clamped_witness:
  "viewportRadius (Some sampleBounds) =
     min (max (calculateDistance 37.0 (-122.0) 37.0 (-122.1))
              (calculateDistance 37.0 (-122.0) 36.9 (-122.0)) / 2) 25
   \<and> viewportRadius (Some sampleBounds) \<le> 25
   \<and> PrimaryRequest \<lparr>lat = 36.9741, lng = -122.0308, dist = 25,
                      qtype = ''recent'', qback = ''7''\<rparr>
       \<in> set (snd (fetchBirdData NotOk PhotoNotOk initialState))
   \<and> toFixed 1 (viewportRadius (mapRef initialState)) = 25"
proof -
  have m: "PrimaryRequest \<lparr>lat = 36.9741, lng = -122.0308, dist = 25,
                      qtype = ''recent'', qback = ''7''\<rparr>
       \<in> set (snd (fetchBirdData NotOk PhotoNotOk initialState))"
    by (simp add: fetchBirdData_def skipFetch_def paramsChanged_def initialState_def
        viewportRadius_def toFixed_def)
  from viewportRadius_clamped [of sampleBounds "Some sampleBounds" NotOk PhotoNotOk initialState] m
  show ?thesis by (auto simp: sampleBounds_def)
qed

text \<open>
  C1. Fetch Gate: the cycle asks the observation source when there is no previous fetch
  (no stored parameters, or no stored location); it asks unconditionally when the day
  count or the classification differs from the stored parameters; otherwise it asks if and
  only if the distance between the stored location and the current center is at least
  3 km.
\<close>

theorem fetch_gate:
  "(lastFetchParams st = None \<longrightarrow> fetched (fetchBirdData r p st))
   \<and> (lastFetchLocation st = None \<longrightarrow> fetched (fetchBirdData r p st))
   \<and> (\<forall>prev. lastFetchParams st = Some prev
         \<and> (daysBack prev \<noteq> daysBack st \<or> sightingType prev \<noteq> sightingType st)
         \<longrightarrow> fetched (fetchBirdData r p st))
   \<and> (\<forall>prev l. lastFetchParams st = Some prev
         \<and> daysBack prev = daysBack st \<and> sightingType prev = sightingType st
         \<and> lastFetchLocation st = Some l
         \<longrightarrow> (fetched (fetchBirdData r p st) \<longleftrightarrow>
                3 \<le> calculateDistance (lat l) (lng l) (lat (mapCenter st)) (lng (mapCenter st))))"
  unfolding fetched_iff by (auto simp: skipFetch_def paramsChanged_def split: option.splits)

text \<open>
  The gate on the initial state, after a change of classification, after a move of
  0.009 degrees of latitude (about 1 km) and after a move of 0.045 degrees (about 5 km).
\<close>

theorem fetch_gate_witness:
  "fetched (fetchBirdData NotOk PhotoNotOk initialState)
   \<and> fetched (fetchBirdData NotOk PhotoNotOk (sampleFetched\<lparr>sightingType := ''rare''\<rparr>))
   \<and> \<not> fetched (fetchBirdData NotOk PhotoNotOk
          (sampleFetched\<lparr>mapCenter := \<lparr>lat = 36.979, lng = -122.03\<rparr>\<rparr>))
   \<and> fetched (fetchBirdData NotOk PhotoNotOk
          (sampleFetched\<lparr>mapCenter := \<lparr>lat = 37.015, lng = -122.03\<rparr>\<rparr>))"
proof -
  have near: "calculateDistance 36.97 (-122.03) 36.979 (-122.03) < 3"
    using pi_less_4 by (subst calculateDistance_meridian) simp_all
  have far: "3 \<le> calculateDistance 36.97 (-122.03) 37.015 (-122.03)"
    using pi_ge_two by (subst calculateDistance_meridian) simp_all
  have 1: "fetched (fetchBirdData NotOk PhotoNotOk initialState)"
    using fetch_gate [of initialState NotOk PhotoNotOk] by (simp add: initialState_def)
  have 2: "fetched (fetchBirdData NotOk PhotoNotOk (sampleFetched\<lparr>sightingType := ''rare''\<rparr>))"
    using fetch_gate [of "sampleFetched\<lparr>sightingType := ''rare''\<rparr>" NotOk PhotoNotOk]
    by (simp add: sampleFetched_def initialState_def)
  have 3: "\<not> fetched (fetchBirdData NotOk PhotoNotOk
          (sampleFetched\<lparr>mapCenter := \<lparr>lat = 36.979, lng = -122.03\<rparr>\<rparr>))"
    using fetch_gate [of "sampleFetched\<lparr>mapCenter := \<lparr>lat = 36.979, lng = -122.03\<rparr>\<rparr>"
        NotOk PhotoNotOk] near
    by (simp add: sampleFetched_def initialState_def)
  have 4: "fetched (fetchBirdData NotOk PhotoNotOk
          (sampleFetched\<lparr>mapCenter := \<lparr>lat = 37.015, lng = -122.03\<rparr>\<rparr>))"
    using fetch_gate [of "sampleFetched\<lparr>mapCenter := \<lparr>lat = 37.015, lng = -122.03\<rparr>\<rparr>"
        NotOk PhotoNotOk] far
    by (simp add: sampleFetched_def initialState_def)
  from 1 2 3 4 show ?thesis by blast
qed

text \<open>
  C2. Observation Normalizer: when the valid observations at \<open>(la, lo)\<close> with common name
  \<open>name\<close> are \<open>a\<close> then \<open>b\<close>, with different submission identifiers, and the input also holds
  an observation \<open>x\<close> flagged invalid, the output has exactly one cluster at \<open>(la, lo)\<close>, that
  cluster has exactly one record named \<open>name\<close>, its \<open>subIds\<close> are those of \<open>a\<close> and \<open>b\<close> in
  that order, and the output is the one of the input without \<open>x\<close>. Stated for every
  \<^verbatim>\<open>speciesPhotos\<close> that is an object.
\<close>

theorem normalize_merges_pair:
  assumes "merged data la lo name = [a, b]"
    and "subId a \<noteq> subId b"
    and "x \<in> set data" and "\<not> obsValid x"
  shows "\<exists>cs c r. processedSightings (Photos m) (filter obsValid data) = Inr cs
            \<and> filter (\<lambda>c. lat c = la \<and> lng c = lo) cs = [c]
            \<and> filter (\<lambda>r. fieldText comName r = name) (birds c) = [r]
            \<and> base r = Some a
            \<and> subIds r = [subId a, subId b]
            \<and> processedSightings (Photos m) (filter obsValid (removeAll x data)) = Inr cs"
proof -
  from processedSightings_returns obtain cs
    where cs: "processedSightings (Photos m) (filter obsValid data) = Inr cs" by blast
  from normalize_unique [OF cs, of la lo name] assms(1) obtain c r
    where c: "filter (\<lambda>c. lat c = la \<and> lng c = lo) cs = [c]"
      and r: "filter (\<lambda>r. fieldText comName r = name) (birds c) = [r]" by auto
  from c have "c \<in> set (filter (\<lambda>c. lat c = la \<and> lng c = lo) cs)" by simp
  then have c': "c \<in> set cs" "lat c = la" "lng c = lo" by simp_all
  from r have "r \<in> set (filter (\<lambda>r. fieldText comName r = name) (birds c))" by simp
  then have r': "r \<in> set (birds c)" "fieldText comName r = name" by simp_all
  from normalize_record [OF cs c'(1) r'(1)] assms(1)
  have "base r = Some a" "subIds r = [subId a, subId b]"
    by (simp_all add: c' r' first_def)
  moreover have "filter obsValid (removeAll x data) = filter obsValid data"
    using assms(4) by (induction data) auto
  ultimately show ?thesis using cs c r by auto
qed

theorem normalize_merges_pair_witness:
  "merged [robinFirst, jayInvalid, robinSecond] 36.97 (-122.03) ''American Robin''
     = [robinFirst, robinSecond]
   \<and> subId robinFirst \<noteq> subId robinSecond
   \<and> jayInvalid \<in> set [robinFirst, jayInvalid, robinSecond] \<and> \<not> obsValid jayInvalid
   \<and> (\<exists>cs c r. processedSightings (Photos robinPhoto)
                   (filter obsValid [robinFirst, jayInvalid, robinSecond]) = Inr cs
            \<and> filter (\<lambda>c. lat c = 36.97 \<and> lng c = -122.03) cs = [c]
            \<and> filter (\<lambda>r. fieldText comName r = ''American Robin'') (birds c) = [r]
            \<and> base r = Some robinFirst
            \<and> subIds r = [''S100'', ''S200'']
            \<and> processedSightings (Photos robinPhoto)
                  (filter obsValid (removeAll jayInvalid [robinFirst, jayInvalid, robinSecond]))
                = Inr cs)"
proof -
  have 1: "merged [robinFirst, jayInvalid, robinSecond] 36.97 (-122.03) ''American Robin''
     = [robinFirst, robinSecond]"
    by (simp add: merged_def robinFirst_def robinSecond_def jayInvalid_def)
  have 2: "subId robinFirst \<noteq> subId robinSecond"
    by (simp add: robinFirst_def robinSecond_def)
  have 3: "jayInvalid \<in> set [robinFirst, jayInvalid, robinSecond]" by simp
  have 4: "\<not> obsValid jayInvalid" by (simp add: jayInvalid_def)
  have 5: "subId robinFirst = ''S100''" "subId robinSecond = ''S200''"
    by (simp_all add: robinFirst_def robinSecond_def)
  from normalize_merges_pair [OF 1 2 3 4, of robinPhoto] 1 2 3 4 show ?thesis
    unfolding 5 by blast
qed

text \<open>
  C6, as the specification states it, fails: two observations of one species at one
  location, the later one second in the source, give a record with the earlier
  timestamp.
\<close>

theorem timestamp_not_most_recent:
  "processedSightings (Photos Map.empty) (filter obsValid [robinFirst, robinSecond])
     = Inr [\<lparr>lat = 36.97, lng = -122.03,
             birds = [\<lparr>base = Some robinFirst, subIds = [''S100'', ''S200''],
                       thumbnailUrl = None, fullPhotoUrl = None\<rparr>]\<rparr>]
   \<and> fieldText obsDt \<lparr>base = Some robinFirst, subIds = [''S100'', ''S200''],
                       thumbnailUrl = None, fullPhotoUrl = None\<rparr> = ''2024-05-01 08:00''
   \<and> merged [robinFirst, robinSecond] 36.97 (-122.03) ''American Robin''
       = [robinFirst, robinSecond]
   \<and> obsDt robinSecond = ''2024-05-02 09:30''
   \<and> \<not> mostRecentOf (merged [robinFirst, robinSecond] 36.97 (-122.03) ''American Robin'')
         ''2024-05-01 08:00''"
  using sample_pair
  by (simp add: fieldText_def mostRecentOf_def merged_def robinFirst_def robinSecond_def)

text \<open>
  C6, amended. The timestamp of every record of the output, like every field copied from
  an observation, is that of the first observation in source order among those merged
  into the record.
\<close>

theorem timestamp_of_first:
  assumes "processedSightings sp (filter obsValid data) = Inr cs"
    and "c \<in> set cs" and "r \<in> set (birds c)"
  shows "\<exists>s rest. merged data (lat c) (lng c) (fieldText comName r) = s # rest
           \<and> base r = Some s \<and> fieldText obsDt r = obsDt s"
proof -
  from normalize_record [OF assms]
  have ne: "merged data (lat c) (lng c) (fieldText comName r) \<noteq> []"
    and b: "base r = first (merged data (lat c) (lng c) (fieldText comName r))" by blast+
  from ne obtain s rest where m: "merged data (lat c) (lng c) (fieldText comName r) = s # rest"
    by (cases "merged data (lat c) (lng c) (fieldText comName r)") auto
  with b have "base r = Some s" by (simp add: first_def)
  then have "fieldText obsDt r = obsDt s" by (simp add: fieldText_def)
  with m \<open>base r = Some s\<close> show ?thesis by blast
qed

theorem timestamp_of_first_witness:
  "\<exists>s rest. merged [robinFirst, robinSecond] 36.97 (-122.03) ''American Robin'' = s # rest
      \<and> base \<lparr>base = Some robinFirst, subIds = [''S100'', ''S200''],
               thumbnailUrl = None, fullPhotoUrl = None\<rparr> = Some s
      \<and> obsDt s = ''2024-05-01 08:00''"
proof -
  let ?r = "\<lparr>base = Some robinFirst, subIds = [''S100'', ''S200''],
             thumbnailUrl = None, fullPhotoUrl = None\<rparr>"
  let ?c = "\<lparr>lat = 36.97, lng = -122.03, birds = [?r]\<rparr>"
  have "?c \<in> set [?c]" "?r \<in> set (birds ?c)" by simp_all
  from timestamp_of_first [OF sample_pair this]
  show ?thesis by (simp add: fieldText_def robinFirst_def)
qed

text \<open>
  C7, as the specification states it, fails: two distinct valid observations of one
  species at one location that carry the same submission identifier give a record whose
  \<open>subIds\<close> repeats it.
\<close>

theorem subIds_duplicate:
  "processedSightings (Photos Map.empty) (filter obsValid [robinFirst, robinRepeated])
     = Inr [\<lparr>lat = 36.97, lng = -122.03,
             birds = [\<lparr>base = Some robinFirst, subIds = [''S100'', ''S100''],
                       thumbnailUrl = None, fullPhotoUrl = None\<rparr>]\<rparr>]
   \<and> robinFirst \<noteq> robinRepeated
   \<and> \<not> distinct (subIds \<lparr>base = Some robinFirst, subIds = [''S100'', ''S100''],
                       thumbnailUrl = None, fullPhotoUrl = None\<rparr>)"
  using sample_repeated by (simp add: robinFirst_def robinRepeated_def)

text \<open>
  C7, amended. The \<open>subIds\<close> of every record of the output is non-empty and lists the
  submission identifiers of the observations merged into the record, in source order; it
  is free of duplicates exactly when those observations carry distinct identifiers.
\<close>

theorem subIds_of_merged:
  assumes "processedSightings sp (filter obsValid data) = Inr cs"
    and "c \<in> set cs" and "r \<in> set (birds c)"
  shows "subIds r \<noteq> []
       \<and> subIds r = map subId (merged data (lat c) (lng c) (fieldText comName r))
       \<and> (distinct (subIds r) \<longleftrightarrow>
            distinct (map subId (merged data (lat c) (lng c) (fieldText comName r))))"
  using normalize_record [OF assms] by auto

theorem subIds_of_merged_witness:
  "subIds \<lparr>base = Some robinFirst, subIds = [''S100'', ''S200''],
            thumbnailUrl = None, fullPhotoUrl = None\<rparr> \<noteq> []
   \<and> map subId (merged [robinFirst, robinSecond] 36.97 (-122.03) ''American Robin'')
       = [''S100'', ''S200'']
   \<and> distinct (subIds \<lparr>base = Some robinFirst, subIds = [''S100'', ''S200''],
            thumbnailUrl = None, fullPhotoUrl = None\<rparr>)"
proof -
  let ?r = "\<lparr>base = Some robinFirst, subIds = [''S100'', ''S200''],
             thumbnailUrl = None, fullPhotoUrl = None\<rparr>"
  let ?c = "\<lparr>lat = 36.97, lng = -122.03, birds = [?r]\<rparr>"
  have n: "fieldText comName ?r = ''American Robin''"
    by (simp add: fieldText_def robinFirst_def)
  have "?c \<in> set [?c]" "?r \<in> set (birds ?c)" by simp_all
  from subIds_of_merged [OF sample_pair this]
  show ?thesis by (auto simp: n)
qed

text \<open>
  C4, as the specification states it, fails on the earlier variant: its
  \<^verbatim>\<open>fetchBirdData\<close> records the queried position before the request, so a rejected request
  leaves a position recorded where none was.
\<close>

theorem legacy_position_overwritten_on_failure:
  "primaryFailed NetworkError
   \<and> lastQueriedPosition initialLegacyState = None
   \<and> lastQueriedPosition (fst (fetchBirdData_legacy NetworkError PhotoNotOk initialLegacyState))
       = Some \<lparr>lat = 36.9741, lng = -122.0308\<rparr>
   \<and> surfacedError (fetchBirdData_legacy NetworkError PhotoNotOk initialLegacyState)"
  by (simp add: fetchBirdData_legacy_def initialLegacyState_def toFixed_def surfacedError_def
      Let_def)

text \<open>
  C4, amended. When the observation query fails, the published clusters are unchanged in
  both variants. In the enriched variant the stored location and parameters are unchanged
  as well, the error notice is raised, and the stored location or parameters change only
  in a cycle that asked the source, got an answer and raised no error. In the earlier
  variant the last queried position is the rounded map center after every cycle, whatever
  the answer.
\<close>

theorem primary_failure_atomicity:
  "(primaryFailed r \<longrightarrow>
      birdSightings (fst (fetchBirdData r p st)) = birdSightings st
    \<and> lastFetchLocation (fst (fetchBirdData r p st)) = lastFetchLocation st
    \<and> lastFetchParams (fst (fetchBirdData r p st)) = lastFetchParams st
    \<and> (fetched (fetchBirdData r p st) \<longrightarrow> surfacedError (fetchBirdData r p st)))
   \<and> (lastFetchLocation (fst (fetchBirdData r p st)) \<noteq> lastFetchLocation st
       \<or> lastFetchParams (fst (fetchBirdData r p st)) \<noteq> lastFetchParams st
      \<longrightarrow> \<not> primaryFailed r \<and> fetched (fetchBirdData r p st)
          \<and> \<not> surfacedError (fetchBirdData r p st))
   \<and> (primaryFailed r \<longrightarrow>
        LegacyState.birdSightings (fst (fetchBirdData_legacy r p old))
          = LegacyState.birdSightings old)
   \<and> lastQueriedPosition (fst (fetchBirdData_legacy r p old))
        = Some \<lparr>lat = toFixed 4 (lat (LegacyState.mapCenter old)),
                lng = toFixed 4 (lng (LegacyState.mapCenter old))\<rparr>"
proof -
  have 1: "primaryFailed r \<Longrightarrow> fetched (fetchBirdData r p st) \<Longrightarrow> surfacedError (fetchBirdData r p st)"
    unfolding fetched_iff surfacedError_iff by (cases r) simp_all
  have 2: "\<not> primaryFailed r \<and> fetched (fetchBirdData r p st) \<and> \<not> surfacedError (fetchBirdData r p st)"
    if "lastFetchLocation (fst (fetchBirdData r p st)) \<noteq> lastFetchLocation st
       \<or> lastFetchParams (fst (fetchBirdData r p st)) \<noteq> lastFetchParams st"
  proof -
    have "fetched (fetchBirdData r p st)"
    proof (rule ccontr)
      assume "\<not> fetched (fetchBirdData r p st)"
      then have "fst (fetchBirdData r p st) = st" by (rule fetchBirdData_skipped)
      with that show False by simp
    qed
    moreover have "\<not> primaryFailed r" using that fetchBirdData_failure [of r p st] by blast
    moreover have "\<not> surfacedError (fetchBirdData r p st)"
      using that fetchBirdData_surfaced [of r p st] by blast
    ultimately show ?thesis by blast
  qed
  have 3: "primaryFailed r \<Longrightarrow>
        LegacyState.birdSightings (fst (fetchBirdData_legacy r p old))
          = LegacyState.birdSightings old"
    by (cases r) (simp_all add: fetchBirdData_legacy_def Let_def)
  have 4: "lastQueriedPosition (fst (fetchBirdData_legacy r p old))
        = Some \<lparr>lat = toFixed 4 (lat (LegacyState.mapCenter old)),
                lng = toFixed 4 (lng (LegacyState.mapCenter old))\<rparr>"
    by (simp add: fetchBirdData_legacy_def Let_def
        split: primary_response.splits sum.splits prod.splits)
  from 1 2 3 4 fetchBirdData_failure [of r p st] show ?thesis by blast
qed

theorem primary_failure_atomicity_witness:
  "primaryFailed NotOk
   \<and> fetched (fetchBirdData NotOk PhotoNotOk initialState)
   \<and> surfacedError (fetchBirdData NotOk PhotoNotOk initialState)
   \<and> birdSightings (fst (fetchBirdData NotOk PhotoNotOk initialState)) = []
   \<and> lastFetchLocation (fst (fetchBirdData NotOk PhotoNotOk initialState)) = None
   \<and> lastFetchParams (fst (fetchBirdData NotOk PhotoNotOk initialState)) = None
   \<and> lastFetchParams (fst (fetchBirdData (Json [robinFirst, jayInvalid, robinSecond])
          (PhotoJson (BodySpecies robinPhoto)) initialState)) \<noteq> None
   \<and> \<not> surfacedError (fetchBirdData (Json [robinFirst, jayInvalid, robinSecond])
          (PhotoJson (BodySpecies robinPhoto)) initialState)
   \<and> LegacyState.birdSightings (fst (fetchBirdData_legacy NotOk PhotoNotOk initialLegacyState)) = []
   \<and> lastQueriedPosition (fst (fetchBirdData_legacy NotOk PhotoNotOk initialLegacyState))
        = Some \<lparr>lat = 36.9741, lng = -122.0308\<rparr>"
proof -
  let ?ok = "fetchBirdData (Json [robinFirst, jayInvalid, robinSecond])
          (PhotoJson (BodySpecies robinPhoto)) initialState"
  have f: "primaryFailed NotOk" by simp
  have g: "fetched (fetchBirdData NotOk PhotoNotOk initialState)"
    by (simp add: fetched_iff skipFetch_def paramsChanged_def initialState_def)
  have i: "birdSightings initialState = []" "lastFetchLocation initialState = None"
    "lastFetchParams initialState = None"
    "LegacyState.birdSightings initialLegacyState = []"
    "toFixed 4 (lat (LegacyState.mapCenter initialLegacyState)) = 36.9741"
    "toFixed 4 (lng (LegacyState.mapCenter initialLegacyState)) = -122.0308"
    by (simp_all add: initialState_def initialLegacyState_def toFixed_def)
  have c: "lastFetchParams (fst ?ok) \<noteq> lastFetchParams initialState"
    unfolding sample_cycle by (simp add: initialState_def)
  from primary_failure_atomicity [of NotOk PhotoNotOk initialState initialLegacyState]
    primary_failure_atomicity [of "Json [robinFirst, jayInvalid, robinSecond]"
      "PhotoJson (BodySpecies robinPhoto)" initialState initialLegacyState]
    f g c
  show ?thesis unfolding i by simp
qed

text \<open>
  C5 fails on the code. A photo lookup answered with status ok and a JSON body without a
  \<^verbatim>\<open>species\<close> property leaves \<^verbatim>\<open>speciesPhotos\<close> undefined; reading a key from it throws
  outside the inner \<^verbatim>\<open>try\<close>, so the cycle ends in the outer \<^verbatim>\<open>catch\<close>: the error notice
  is raised, no clusters are published and the fetch is not recorded.
\<close>

theorem photo_body_without_species_fails_cycle:
  "fetchBirdData (Json [robinFirst]) (PhotoJson BodyNoSpecies) initialState =
     (initialState,
      [PrimaryRequest \<lparr>lat = 36.9741, lng = -122.0308, dist = 25,
                       qtype = ''recent'', qback = ''7''\<rparr>,
       PhotoRequest [''Turdus migratorius_American Robin''],
       FetchErrorLogged, Alert ''Error fetching bird sightings''])
   \<and> surfacedError (fetchBirdData (Json [robinFirst]) (PhotoJson BodyNoSpecies) initialState)
   \<and> birdSightings (fst (fetchBirdData (Json [robinFirst]) (PhotoJson BodyNoSpecies)
        initialState)) = []
   \<and> lastFetchParams (fst (fetchBirdData (Json [robinFirst]) (PhotoJson BodyNoSpecies)
        initialState)) = None"
  by (simp add: fetchBirdData_def skipFetch_def paramsChanged_def initialState_def
      viewportRadius_def toFixed_def lookupPhotos_def uniqueSpecies_def surfacedError_def
      Let_def eval_normalize)

text \<open>
  C10 fails on the code, by the same defect as C5: with a lookup that succeeds or is
  absorbed the step returns the clusters, with or without photo fields; with a body that
  lacks \<^verbatim>\<open>species\<close> it returns no clusters at all.
\<close>

theorem photo_join_throws_without_species:
  "processedSightings (fst (lookupPhotos (PhotoJson (BodySpecies robinPhoto))))
       (filter obsValid [robinFirst])
     = Inr [\<lparr>lat = 36.97, lng = -122.03,
             birds = [\<lparr>base = Some robinFirst, subIds = [''S100''],
                       thumbnailUrl = Some ''https://media.example/robin_t.jpg'',
                       fullPhotoUrl = Some ''https://media.example/robin.jpg''\<rparr>]\<rparr>]
   \<and> processedSightings (fst (lookupPhotos PhotoNotOk)) (filter obsValid [robinFirst])
     = Inr [\<lparr>lat = 36.97, lng = -122.03,
             birds = [\<lparr>base = Some robinFirst, subIds = [''S100''],
                       thumbnailUrl = None, fullPhotoUrl = None\<rparr>]\<rparr>]
   \<and> processedSightings (fst (lookupPhotos (PhotoJson BodyNoSpecies)))
       (filter obsValid [robinFirst])
     = Inl TypeError"
  by (simp add: lookupPhotos_def robinPhoto_def eval_normalize)

text \<open>
  C9. Running the cycle again on the same answers leaves the published clusters as they
  were, in both variants; and two cycles of the enriched variant that process the same
  answers publish the same clusters, whatever the state each started from.
\<close>

theorem normalizer_rerun:
  "birdSightings (fst (fetchBirdData r p (fst (fetchBirdData r p st))))
     = birdSightings (fst (fetchBirdData r p st))
   \<and> LegacyState.birdSightings
        (fst (fetchBirdData_legacy r p (fst (fetchBirdData_legacy r p old))))
     = LegacyState.birdSightings (fst (fetchBirdData_legacy r p old))
   \<and> (fetched (fetchBirdData r p st) \<and> \<not> surfacedError (fetchBirdData r p st)
        \<and> fetched (fetchBirdData r p st')
      \<longrightarrow> birdSightings (fst (fetchBirdData r p st'))
            = birdSightings (fst (fetchBirdData r p st))
          \<and> set (birdSightings (fst (fetchBirdData r p st')))
            = set (birdSightings (fst (fetchBirdData r p st))))"
proof -
  have "birdSightings (fst (fetchBirdData r p st')) = birdSightings (fst (fetchBirdData r p st))"
    if a: "fetched (fetchBirdData r p st)" and b: "\<not> surfacedError (fetchBirdData r p st)"
      and c: "fetched (fetchBirdData r p st')"
  proof -
    from a b c have d: "\<not> surfacedError (fetchBirdData r p st')"
      unfolding surfacedError_iff fetched_iff by simp
    from published_clusters [OF a b] published_clusters [OF c d] show ?thesis by auto
  qed
  with rerun_enriched [of r p st] rerun_legacy [of r p old] show ?thesis by auto
qed

theorem normalizer_rerun_witness:
  "birdSightings (fst (fetchBirdData (Json [robinFirst, jayInvalid, robinSecond])
       (PhotoJson (BodySpecies robinPhoto))
       (fst (fetchBirdData (Json [robinFirst, jayInvalid, robinSecond])
          (PhotoJson (BodySpecies robinPhoto)) initialState))))
     = [\<lparr>lat = 36.97, lng = -122.03,
         birds = [\<lparr>base = Some robinFirst, subIds = [''S100'', ''S200''],
                   thumbnailUrl = Some ''https://media.example/robin_t.jpg'',
                   fullPhotoUrl = Some ''https://media.example/robin.jpg''\<rparr>]\<rparr>]
   \<and> fetched (fetchBirdData (Json [robinFirst, jayInvalid, robinSecond])
        (PhotoJson (BodySpecies robinPhoto)) (sampleFetched\<lparr>sightingType := ''rare''\<rparr>))
   \<and> birdSightings (fst (fetchBirdData (Json [robinFirst, jayInvalid, robinSecond])
        (PhotoJson (BodySpecies robinPhoto)) (sampleFetched\<lparr>sightingType := ''rare''\<rparr>)))
     = [\<lparr>lat = 36.97, lng = -122.03,
         birds = [\<lparr>base = Some robinFirst, subIds = [''S100'', ''S200''],
                   thumbnailUrl = Some ''https://media.example/robin_t.jpg'',
                   fullPhotoUrl = Some ''https://media.example/robin.jpg''\<rparr>]\<rparr>]"
proof -
  let ?r = "Json [robinFirst, jayInvalid, robinSecond]"
  let ?p = "PhotoJson (BodySpecies robinPhoto)"
  let ?st' = "sampleFetched\<lparr>sightingType := ''rare''\<rparr>"
  have a: "fetched (fetchBirdData ?r ?p initialState)"
    by (simp add: fetched_iff skipFetch_def paramsChanged_def initialState_def)
  have b: "\<not> surfacedError (fetchBirdData ?r ?p initialState)"
    unfolding sample_cycle by (simp add: surfacedError_def)
  have c: "fetched (fetchBirdData ?r ?p ?st')"
    by (simp add: fetched_iff skipFetch_def paramsChanged_def sampleFetched_def initialState_def)
  have d: "birdSightings (fst (fetchBirdData ?r ?p initialState))
     = [\<lparr>lat = 36.97, lng = -122.03,
         birds = [\<lparr>base = Some robinFirst, subIds = [''S100'', ''S200''],
                   thumbnailUrl = Some ''https://media.example/robin_t.jpg'',
                   fullPhotoUrl = Some ''https://media.example/robin.jpg''\<rparr>]\<rparr>]"
    unfolding sample_cycle by simp
  from normalizer_rerun [of ?r ?p initialState initialLegacyState ?st'] a b c
  show ?thesis unfolding d by simp
qed

end
